theory Spec2Isabelle
  imports Complex_Main
begin

section \<open>SPY signals updater: a model of update_spy_signals.py\<close>

text \<open>
  The script downloads one year of daily closes, computes a period-2 RSI and a 200-day
  simple moving average with pandas, derives three 0/1 signals, and overwrites
  spy_signals.json. The model below follows the script line by line.

  Numbers: a pandas float is modelled as a value of \<open>fval\<close>: an exact rational, one of
  the two infinities, or NaN. Arithmetic on finite values is exact (binary rounding error
  is not modelled, and neither is the sign of zero); the special values follow IEEE 754 as
  numpy applies it (no exception on a division by zero). The closes delivered by the feed
  are taken to be finite numbers, so a series of closes is a \<open>rat list\<close>; what the same
  lines do with a column that holds a NaN is modelled separately, on an \<open>fval list\<close>.
\<close>

subsection \<open>Floating-point values with infinities and NaN\<close>

datatype fval = Fin rat | PInf | NInf | NaN

fun is_nan :: "fval \<Rightarrow> bool" where
  "is_nan NaN = True"
| "is_nan _ = False"

fun is_fin :: "fval \<Rightarrow> bool" where
  "is_fin (Fin _) = True"
| "is_fin _ = False"

fun fneg :: "fval \<Rightarrow> fval" where
  "fneg (Fin a) = Fin (- a)"
| "fneg PInf = NInf"
| "fneg NInf = PInf"
| "fneg NaN = NaN"

fun fadd :: "fval \<Rightarrow> fval \<Rightarrow> fval" where
  "fadd NaN _ = NaN"
| "fadd _ NaN = NaN"
| "fadd (Fin a) (Fin b) = Fin (a + b)"
| "fadd PInf NInf = NaN"
| "fadd NInf PInf = NaN"
| "fadd PInf _ = PInf"
| "fadd _ PInf = PInf"
| "fadd NInf _ = NInf"
| "fadd _ NInf = NInf"

definition fsub :: "fval \<Rightarrow> fval \<Rightarrow> fval" where
  "fsub x y = fadd x (fneg y)"

fun fmul :: "fval \<Rightarrow> fval \<Rightarrow> fval" where
  "fmul NaN _ = NaN"
| "fmul _ NaN = NaN"
| "fmul (Fin a) (Fin b) = Fin (a * b)"
| "fmul (Fin a) PInf = (if a = 0 then NaN else if 0 < a then PInf else NInf)"
| "fmul (Fin a) NInf = (if a = 0 then NaN else if 0 < a then NInf else PInf)"
| "fmul PInf (Fin b) = (if b = 0 then NaN else if 0 < b then PInf else NInf)"
| "fmul NInf (Fin b) = (if b = 0 then NaN else if 0 < b then NInf else PInf)"
| "fmul PInf PInf = PInf"
| "fmul NInf NInf = PInf"
| "fmul PInf NInf = NInf"
| "fmul NInf PInf = NInf"

fun fdiv :: "fval \<Rightarrow> fval \<Rightarrow> fval" where
  "fdiv NaN _ = NaN"
| "fdiv _ NaN = NaN"
| "fdiv (Fin a) (Fin b) =
     (if b \<noteq> 0 then Fin (a / b)
      else if a = 0 then NaN else if 0 < a then PInf else NInf)"
| "fdiv (Fin a) PInf = Fin 0"
| "fdiv (Fin a) NInf = Fin 0"
| "fdiv PInf (Fin b) = (if 0 \<le> b then PInf else NInf)"
| "fdiv NInf (Fin b) = (if 0 \<le> b then NInf else PInf)"
| "fdiv _ _ = NaN"

text \<open>Comparisons: every comparison with NaN is false.\<close>

fun flt :: "fval \<Rightarrow> fval \<Rightarrow> bool" where
  "flt NaN _ = False"
| "flt _ NaN = False"
| "flt (Fin a) (Fin b) = (a < b)"
| "flt NInf NInf = False"
| "flt NInf _ = True"
| "flt _ NInf = False"
| "flt PInf _ = False"
| "flt _ PInf = True"

fun feq :: "fval \<Rightarrow> fval \<Rightarrow> bool" where
  "feq NaN _ = False"
| "feq _ NaN = False"
| "feq x y = (x = y)"

subsection \<open>The pandas operations used by calc_rsi\<close>

text \<open>\<open>series.diff()\<close>: the first entry has no predecessor and is NaN.\<close>

fun diff :: "rat list \<Rightarrow> fval list" where
  "diff [] = []"
| "diff (x # xs) = NaN # map (\<lambda>(a, b). Fin (b - a)) (zip (x # xs) xs)"

text \<open>\<open>clip(lower=l)\<close> and \<open>clip(upper=u)\<close> on one entry: NaN stays NaN.\<close>

definition clip_lower :: "fval \<Rightarrow> fval \<Rightarrow> fval" where
  "clip_lower l x = (if flt x l then l else x)"

definition clip_upper :: "fval \<Rightarrow> fval \<Rightarrow> fval" where
  "clip_upper u x = (if flt u x then u else x)"

text \<open>
  \<open>ewm(alpha=a, min_periods=m, adjust=False).mean()\<close>, as pandas computes it
  (ignore_na is False): the running value \<open>weighted\<close> starts at the first entry; an
  entry that is NaN is no observation; the first observation seeds \<open>weighted\<close>; each
  later observation \<open>cur\<close> gives
  \<open>weighted := (old_wt * weighted + a * cur) / (old_wt + a)\<close> with
  \<open>old_wt = 1 - a\<close> (decayed once more for every NaN skipped since the last
  observation), unless \<open>weighted = cur\<close> already; the output is NaN until \<open>m\<close>
  observations have been seen.
\<close>

fun ewm_loop :: "rat \<Rightarrow> nat \<Rightarrow> fval \<Rightarrow> rat \<Rightarrow> nat \<Rightarrow> fval list \<Rightarrow> fval list" where
  "ewm_loop alpha minp weighted old_wt nobs [] = []"
| "ewm_loop alpha minp weighted old_wt nobs (cur # rest) =
     (let is_observation = \<not> is_nan cur;
          nobs' = nobs + (if is_observation then 1 else 0);
          ow = old_wt * (1 - alpha);
          weighted' =
            (if \<not> is_nan weighted then
               (if is_observation then
                  (if \<not> feq weighted cur
                   then fdiv (fadd (fmul (Fin ow) weighted) (fmul (Fin alpha) cur))
                          (Fin (ow + alpha))
                   else weighted)
                else weighted)
             else if is_observation then cur else weighted);
          old_wt' =
            (if \<not> is_nan weighted then (if is_observation then 1 else ow) else old_wt)
      in (if minp \<le> nobs' then weighted' else NaN)
           # ewm_loop alpha minp weighted' old_wt' nobs' rest)"

fun ewm_mean :: "rat \<Rightarrow> nat \<Rightarrow> fval list \<Rightarrow> fval list" where
  "ewm_mean alpha minp [] = []"
| "ewm_mean alpha minp (x # rest) =
     (let nobs = (if is_nan x then 0 else 1 :: nat)
      in (if minp \<le> nobs then x else NaN) # ewm_loop alpha minp x 1 nobs rest)"

text \<open>\<open>replace(0, float("inf"))\<close> on one entry.\<close>

definition replace_zero_inf :: "fval \<Rightarrow> fval" where
  "replace_zero_inf x = (if feq x (Fin 0) then PInf else x)"

datatype error =
    ZeroDivisionError
  | IndexError
  | NotEnoughData nat
  | AcquisitionError
  | OSError

text \<open>
  \<open>calc_rsi(series, period)\<close>, with its local variables \<open>gain\<close>, \<open>loss\<close>,
  \<open>avg_gain\<close> and \<open>avg_loss\<close> as functions of the arguments. \<open>1 / period\<close> is
  Python's division of two ints: it raises for period 0.
\<close>

definition gain :: "rat list \<Rightarrow> fval list" where
  "gain series = map (clip_lower (Fin 0)) (diff series)"

definition loss :: "rat list \<Rightarrow> fval list" where
  "loss series = map (\<lambda>d. fneg (clip_upper (Fin 0) d)) (diff series)"

definition avg_gain :: "rat list \<Rightarrow> nat \<Rightarrow> fval list" where
  "avg_gain series period = ewm_mean (1 / of_nat period) period (gain series)"

definition avg_loss :: "rat list \<Rightarrow> nat \<Rightarrow> fval list" where
  "avg_loss series period = ewm_mean (1 / of_nat period) period (loss series)"

definition calc_rsi :: "rat list \<Rightarrow> nat \<Rightarrow> error + fval list" where
  "calc_rsi series period =
     (if period = 0 then Inl ZeroDivisionError
      else
        let rs = map (\<lambda>(g, l). fdiv g (replace_zero_inf l))
                   (zip (avg_gain series period) (avg_loss series period))
        in Inr (map (\<lambda>r. fsub (Fin 100) (fdiv (Fin 100) (fadd (Fin 1) r))) rs))"

subsection \<open>Rolling mean, rounding, positional access\<close>

text \<open>
  \<open>close.rolling(w).mean()\<close>: entry \<open>i\<close> is the arithmetic mean of the \<open>w\<close> closes
  ending at \<open>i\<close>, and NaN while fewer than \<open>w\<close> closes are available.
\<close>

definition rolling_mean :: "nat \<Rightarrow> rat list \<Rightarrow> fval list" where
  "rolling_mean w xs =
     map (\<lambda>i. if i + 1 < w then NaN
              else Fin (sum_list (take w (drop (i + 1 - w) xs)) / of_nat w))
       [0..<length xs]"

text \<open>Rounding to the nearest integer, a tie going to the even neighbour.\<close>

definition rint :: "rat \<Rightarrow> int" where
  "rint x =
     (let f = \<lfloor>x\<rfloor>; r = x - of_int f
      in if r < 1 / 2 then f
         else if 1 / 2 < r then f + 1
         else if even f then f else f + 1)"

text \<open>
  \<open>round(x, ndigits)\<close> on a numpy float: scale by \<open>10 ^ ndigits\<close>, round to the
  nearest integer (ties to even), scale back. NaN and the infinities are returned as
  they are.
\<close>

fun py_round :: "fval \<Rightarrow> nat \<Rightarrow> fval" where
  "py_round (Fin q) ndigits = Fin (of_int (rint (q * 10 ^ ndigits)) / 10 ^ ndigits)"
| "py_round x ndigits = x"

text \<open>\<open>s.iloc[-k]\<close> for \<open>k \<ge> 1\<close>: the k-th entry from the end, IndexError out of range.\<close>

definition iloc_neg :: "'a list \<Rightarrow> nat \<Rightarrow> error + 'a" where
  "iloc_neg xs k =
     (if 1 \<le> k \<and> k \<le> length xs then Inr (xs ! (length xs - k)) else Inl IndexError)"

text \<open>Sequencing of steps that may raise: the first error ends the computation.\<close>

fun and_then :: "error + 'a \<Rightarrow> ('a \<Rightarrow> error + 'b) \<Rightarrow> error + 'b" where
  "and_then (Inl e) f = Inl e"
| "and_then (Inr x) f = f x"

subsection \<open>The indicators and signals of run (lines 42 to 54)\<close>

record signals =
  last_close :: fval
  last_rsi2 :: fval
  last_sma200 :: fval
  rsi2_below_30 :: int
  three_lower :: int
  above_sma200 :: int

definition run_indicators :: "rat list \<Rightarrow> error + signals" where
  "run_indicators close =
     and_then (calc_rsi close 2) (\<lambda>rsi2.
     let sma200 = rolling_mean 200 close in
     and_then (iloc_neg close 1) (\<lambda>c1.
     and_then (iloc_neg rsi2 1) (\<lambda>r1.
     and_then (iloc_neg sma200 1) (\<lambda>s1.
     let lc = py_round (Fin c1) 2;
         lr = py_round r1 2;
         ls = py_round s1 2;
         below = (if flt lr (Fin 30) then 1 else 0)
     in
     and_then (iloc_neg close 2) (\<lambda>c2.
     and_then (if c1 < c2
               then and_then (iloc_neg close 3) (\<lambda>c3. Inr (if c2 < c3 then 1 else 0))
               else Inr 0) (\<lambda>three.
     Inr \<lparr> last_close = lc, last_rsi2 = lr, last_sma200 = ls,
           rsi2_below_30 = below, three_lower = three,
           above_sma200 = (if flt ls lc then 1 else 0) \<rparr>))))))"

subsection \<open>The news headline\<close>

text \<open>
  What \<open>yf.Ticker("SPY").news\<close> can deliver: an exception, or a list of items (empty or
  not). An item is a dict that may have a "content" dict, which may have a "title"; an
  item or content that is no dict makes \<open>.get\<close> raise inside the \<open>try\<close>.
\<close>

datatype content = Content "string option" | ContentNoDict

datatype news_item = NewsItem "content option" | ItemNoDict

datatype news_outcome = NewsRaises | NewsList "news_item list"

fun fetch_spy_news :: "news_outcome \<Rightarrow> string" where
  "fetch_spy_news NewsRaises = ''''"
| "fetch_spy_news (NewsList []) = ''''"
| "fetch_spy_news (NewsList (ItemNoDict # _)) = ''''"
| "fetch_spy_news (NewsList (NewsItem None # _)) = ''''"
| "fetch_spy_news (NewsList (NewsItem (Some ContentNoDict) # _)) = ''''"
| "fetch_spy_news (NewsList (NewsItem (Some (Content None)) # _)) = ''''"
| "fetch_spy_news (NewsList (NewsItem (Some (Content (Some title))) # _)) = title"

text \<open>
  The fetch has failed when it raised, delivered no item, or delivered a first item that
  made \<open>.get\<close> raise inside the \<open>try\<close>.
\<close>

fun news_failed :: "news_outcome \<Rightarrow> bool" where
  "news_failed NewsRaises = True"
| "news_failed (NewsList []) = True"
| "news_failed (NewsList (ItemNoDict # _)) = True"
| "news_failed (NewsList (NewsItem (Some ContentNoDict) # _)) = True"
| "news_failed (NewsList (NewsItem _ # _)) = False"

subsection \<open>The payload and its serialisation\<close>

record metrics =
  m_last_close :: fval
  m_rsi2 :: fval
  m_sma200 :: fval
  m_news :: string

record payload =
  ticker :: string
  p_rsi_2_below_30 :: int
  p_three_lower_closes :: int
  p_above_sma200 :: int
  p_metrics :: metrics
  updated_at :: string

definition make_payload :: "signals \<Rightarrow> string \<Rightarrow> string \<Rightarrow> payload" where
  "make_payload s headline now =
     \<lparr> ticker = ''SPY'',
       p_rsi_2_below_30 = rsi2_below_30 s,
       p_three_lower_closes = three_lower s,
       p_above_sma200 = above_sma200 s,
       p_metrics = \<lparr> m_last_close = last_close s, m_rsi2 = last_rsi2 s,
                     m_sma200 = last_sma200 s, m_news = headline \<rparr>,
       updated_at = now \<rparr>"

text \<open>
  \<open>json.dump(payload, f, indent=4)\<close> writes the document piece by piece. The file's
  content is modelled as the sequence of JSON tokens written so far, keys in the order
  of the dict literal; white space and punctuation are left out.
\<close>

datatype jtoken = JOpen | JClose | JKey string | JStr string | JInt int | JNum fval

definition json_tokens :: "payload \<Rightarrow> jtoken list" where
  "json_tokens p =
     [JOpen,
      JKey ''ticker'', JStr (ticker p),
      JKey ''rsi_2_below_30'', JInt (p_rsi_2_below_30 p),
      JKey ''three_lower_closes'', JInt (p_three_lower_closes p),
      JKey ''above_sma200'', JInt (p_above_sma200 p),
      JKey ''metrics'', JOpen,
      JKey ''last_close'', JNum (m_last_close (p_metrics p)),
      JKey ''rsi2'', JNum (m_rsi2 (p_metrics p)),
      JKey ''sma200'', JNum (m_sma200 (p_metrics p)),
      JKey ''news'', JStr (m_news (p_metrics p)),
      JClose,
      JKey ''updated_at'', JStr (updated_at p),
      JClose]"

subsection \<open>run\<close>

text \<open>
  Everything outside the script that a run depends on: what the download delivers (an
  error, or the closes of the data frame, one per row), what the news request delivers,
  the clock (already formatted as \<open>%Y-%m-%dT%H:%M:%SZ\<close>), the present content of
  spy_signals.json (\<open>None\<close> when the file does not exist), and how the storage behaves:
  \<open>open(out, "w")\<close> may fail, and writing may fail after a number of tokens.
\<close>

datatype storage = StorageOk | OpenFails | WriteFails nat

record world =
  feed :: "error + rat list"
  news_feed :: news_outcome
  clock :: string
  snapshot_file :: "jtoken list option"
  storage :: storage

text \<open>The external actions of a run, in the order they happen.\<close>

datatype event = EvDownload | EvNews | EvClock | EvOpen | EvWrite | EvPrint

record outcome =
  result :: "error + unit"
  file_after :: "jtoken list option"
  events :: "event list"

text \<open>The payload that run builds (lines 37 to 68), or the error that ends the run before.\<close>

definition run_payload :: "world \<Rightarrow> error + payload" where
  "run_payload w =
     and_then (feed w) (\<lambda>df.
       if df = [] \<or> length df < 210 then Inl (NotEnoughData (length df))
       else and_then (run_indicators df) (\<lambda>s.
         Inr (make_payload s (fetch_spy_news (news_feed w)) (clock w))))"

text \<open>
  \<open>open(out, "w")\<close> truncates the file as soon as it succeeds; the tokens follow; the
  summary is printed after the file is closed.
\<close>

definition run :: "world \<Rightarrow> outcome" where
  "run w =
     (case run_payload w of
        Inl e \<Rightarrow>
          \<lparr> result = Inl e, file_after = snapshot_file w, events = [EvDownload] \<rparr>
      | Inr p \<Rightarrow>
          (case storage w of
             OpenFails \<Rightarrow>
               \<lparr> result = Inl OSError, file_after = snapshot_file w,
                 events = [EvDownload, EvNews, EvClock, EvOpen] \<rparr>
           | WriteFails k \<Rightarrow>
               \<lparr> result = Inl OSError, file_after = Some (take k (json_tokens p)),
                 events = [EvDownload, EvNews, EvClock, EvOpen, EvWrite] \<rparr>
           | StorageOk \<Rightarrow>
               \<lparr> result = Inr (), file_after = Some (json_tokens p),
                 events = [EvDownload, EvNews, EvClock, EvOpen, EvWrite, EvPrint] \<rparr>))"

subsection \<open>The same lines on a column that may hold NaN\<close>

text \<open>
  Line 39 counts rows; it does not look at the values. The definitions above take the
  closes as finite numbers. The ones below follow the same lines of the script for a
  \<open>Close\<close> column whose entries are arbitrary floats, NaN included: \<open>diff\<close>
  subtracts floats, a rolling window with fewer than \<open>w\<close> non-NaN entries has mean
  NaN, \<open>round\<close> returns NaN for NaN, and a comparison with NaN is false.
\<close>

fun diff_raw :: "fval list \<Rightarrow> fval list" where
  "diff_raw [] = []"
| "diff_raw (x # xs) = NaN # map (\<lambda>(a, b). fsub b a) (zip (x # xs) xs)"

definition calc_rsi_raw :: "fval list \<Rightarrow> nat \<Rightarrow> error + fval list" where
  "calc_rsi_raw series period =
     (if period = 0 then Inl ZeroDivisionError
      else
        let delta = diff_raw series;
            gain = map (clip_lower (Fin 0)) delta;
            loss = map (\<lambda>d. fneg (clip_upper (Fin 0) d)) delta;
            avg_gain = ewm_mean (1 / of_nat period) period gain;
            avg_loss = ewm_mean (1 / of_nat period) period loss;
            rs = map (\<lambda>(g, l). fdiv g (replace_zero_inf l)) (zip avg_gain avg_loss)
        in Inr (map (\<lambda>r. fsub (Fin 100) (fdiv (Fin 100) (fadd (Fin 1) r))) rs))"

definition rolling_mean_raw :: "nat \<Rightarrow> fval list \<Rightarrow> fval list" where
  "rolling_mean_raw w xs =
     map (\<lambda>i. let window = take w (drop (i + 1 - w) xs)
              in if i + 1 < w \<or> list_ex is_nan window then NaN
                 else fdiv (foldl fadd (Fin 0) window) (Fin (of_nat w)))
       [0..<length xs]"

definition run_indicators_raw :: "fval list \<Rightarrow> error + signals" where
  "run_indicators_raw close =
     and_then (calc_rsi_raw close 2) (\<lambda>rsi2.
     let sma200 = rolling_mean_raw 200 close in
     and_then (iloc_neg close 1) (\<lambda>c1.
     and_then (iloc_neg rsi2 1) (\<lambda>r1.
     and_then (iloc_neg sma200 1) (\<lambda>s1.
     let lc = py_round c1 2;
         lr = py_round r1 2;
         ls = py_round s1 2;
         below = (if flt lr (Fin 30) then 1 else 0)
     in
     and_then (iloc_neg close 2) (\<lambda>c2.
     and_then (if flt c1 c2
               then and_then (iloc_neg close 3) (\<lambda>c3. Inr (if flt c2 c3 then 1 else 0))
               else Inr 0) (\<lambda>three.
     Inr \<lparr> last_close = lc, last_rsi2 = lr, last_sma200 = ls,
           rsi2_below_30 = below, three_lower = three,
           above_sma200 = (if flt ls lc then 1 else 0) \<rparr>))))))"

text \<open>
  Lines 39 to 68 for such a column: the row count is checked, the indicators are
  computed, and the payload is built with the headline and the time stamp given.
\<close>

definition run_payload_raw :: "fval list \<Rightarrow> string \<Rightarrow> string \<Rightarrow> error + payload" where
  "run_payload_raw df headline now =
     (if df = [] \<or> length df < 210 then Inl (NotEnoughData (length df))
      else and_then (run_indicators_raw df) (\<lambda>s. Inr (make_payload s headline now)))"

subsection \<open>The specification's wording, for comparison with the code\<close>

text \<open>
  Section 4.1 of the specification, steps 1 and 2: the day-over-day differences
  \<open>price[i] - price[i-1]\<close> for \<open>i \<ge> 1\<close>, split into \<open>max(diff, 0)\<close> and
  \<open>max(-diff, 0)\<close>. Entry \<open>j\<close> of these lists belongs to index \<open>j + 1\<close> of the series.
\<close>

definition day_gains :: "rat list \<Rightarrow> rat list" where
  "day_gains series = map (\<lambda>(a, b). max (b - a) 0) (zip series (tl series))"

definition day_losses :: "rat list \<Rightarrow> rat list" where
  "day_losses series = map (\<lambda>(a, b). max (- (b - a)) 0) (zip series (tl series))"

text \<open>
  Step 3: pure recursive exponential smoothing, started from the first value:
  \<open>avg[first] = x[first]\<close> and \<open>avg[i] = (1 - alpha) * avg[i-1] + alpha * x[i]\<close>.
\<close>

fun smooth_from :: "rat \<Rightarrow> rat \<Rightarrow> rat list \<Rightarrow> rat list" where
  "smooth_from alpha prev [] = []"
| "smooth_from alpha prev (x # xs) =
     ((1 - alpha) * prev + alpha * x) # smooth_from alpha ((1 - alpha) * prev + alpha * x) xs"

fun smooth :: "rat \<Rightarrow> rat list \<Rightarrow> rat list" where
  "smooth alpha [] = []"
| "smooth alpha (x # xs) = x # smooth_from alpha x xs"

text \<open>
  The average is usable once \<open>minp\<close> differences have contributed: of a list of
  averages that starts after \<open>n\<close> differences, the entries before that are NaN.
\<close>

fun usable_from :: "nat \<Rightarrow> nat \<Rightarrow> rat list \<Rightarrow> fval list" where
  "usable_from minp n [] = []"
| "usable_from minp n (a # as) =
     (if minp \<le> n + 1 then Fin a else NaN) # usable_from minp (n + 1) as"

text \<open>
  Steps 4 and 5 as the code computes them, on finite averages: a zero average loss is
  replaced by infinity, so that \<open>rs\<close> is 0.
\<close>

definition rsi_of :: "rat \<Rightarrow> rat \<Rightarrow> rat" where
  "rsi_of ag al = (if al = 0 then 0 else 100 - 100 / (1 + ag / al))"

text \<open>
  The period-2 RSI at the latest index of a series, from the smoothed averages of the
  specification (the latest difference is entry \<open>length series - 2\<close> of the lists).
\<close>

definition latest_rsi :: "rat list \<Rightarrow> rat" where
  "latest_rsi series =
     rsi_of (smooth (1 / 2) (day_gains series) ! (length series - 2))
            (smooth (1 / 2) (day_losses series) ! (length series - 2))"

text \<open>The arithmetic mean of the trailing \<open>w\<close> entries.\<close>

definition trailing_mean :: "nat \<Rightarrow> rat list \<Rightarrow> rat" where
  "trailing_mean w xs = sum_list (drop (length xs - w) xs) / of_nat w"


subsection \<open>Two concrete runs\<close>

text \<open>
  A run on 209 closes of 100 followed by 100.004, with an earlier snapshot in place, in
  which the news request raises and the storage works; and the same run with a headline
  and a storage that fails after five tokens have been written.
\<close>

definition no_news_world :: world where
  "no_news_world =
     \<lparr> feed = Inr (replicate 209 100 @ [100004 / 1000]),
       news_feed = NewsRaises,
       clock = ''2024-01-02T21:30:00Z'',
       snapshot_file = Some [JOpen, JKey ''ticker'', JStr ''SPY'', JClose],
       storage = StorageOk \<rparr>"

definition failing_write_world :: world where
  "failing_write_world =
     \<lparr> feed = Inr (replicate 209 100 @ [100004 / 1000]),
       news_feed = NewsList [NewsItem (Some (Content (Some ''Stocks rise'')))],
       clock = ''2024-01-02T21:30:00Z'',
       snapshot_file = Some [JOpen, JKey ''ticker'', JStr ''SPY'', JClose],
       storage = WriteFails 5 \<rparr>"

section \<open>Properties\<close>

subsection \<open>Lengths\<close>

lemma length_diff: "length (diff xs) = length xs"
  by (cases xs) simp_all

lemma length_ewm_loop: "length (ewm_loop a m w ow n xs) = length xs"
  by (induction xs arbitrary: w ow n) (simp_all add: Let_def)

lemma length_ewm_mean: "length (ewm_mean a m xs) = length xs"
  by (cases xs) (simp_all add: Let_def length_ewm_loop)

lemma length_avg_gain: "length (avg_gain xs p) = length xs"
  by (simp add: avg_gain_def gain_def length_ewm_mean length_diff)

lemma length_avg_loss: "length (avg_loss xs p) = length xs"
  by (simp add: avg_loss_def loss_def length_ewm_mean length_diff)

lemma calc_rsi_length: "calc_rsi xs p = Inr r \<Longrightarrow> length r = length xs"
  by (auto simp: calc_rsi_def Let_def length_avg_gain length_avg_loss split: if_splits)

subsection \<open>The smoothing of the code is the recursion of the specification\<close>

lemma length_smooth_from: "length (smooth_from a w xs) = length xs"
  by (induction xs arbitrary: w) simp_all

lemma length_smooth: "length (smooth a xs) = length xs"
  by (cases xs) (simp_all add: length_smooth_from)

lemma length_usable_from: "length (usable_from m n xs) = length xs"
  by (induction xs arbitrary: n) simp_all

lemma usable_from_nth:
  "i < length xs \<Longrightarrow> usable_from m n xs ! i = (if m \<le> n + i + 1 then Fin (xs ! i) else NaN)"
proof (induction xs arbitrary: n i)
  case Nil
  then show ?case by simp
next
  case (Cons a as)
  then show ?case by (cases i) simp_all
qed

lemma gain_eq: "gain (x # xs) = NaN # map Fin (day_gains (x # xs))"
  by (simp add: gain_def day_gains_def clip_lower_def max_def split_def)

lemma loss_eq: "loss (x # xs) = NaN # map Fin (day_losses (x # xs))"
  by (simp add: loss_def day_losses_def clip_upper_def max_def split_def)

lemma ewm_loop_fin:
  "ewm_loop a m (Fin w) 1 n (map Fin xs) = usable_from m n (smooth_from a w xs)"
proof (induction xs arbitrary: w n)
  case Nil
  then show ?case by simp
next
  case (Cons x xs)
  have same: "(1 - a) * y + a * y = y" for y :: rat
    by (simp add: algebra_simps)
  show ?case using Cons.IH by (simp add: Let_def same)
qed

lemma ewm_mean_series:
  "ewm_mean a m (NaN # map Fin xs) = NaN # usable_from m 0 (smooth a xs)"
proof (cases xs)
  case Nil
  then show ?thesis by simp
next
  case (Cons x rest)
  then show ?thesis by (simp add: Let_def ewm_loop_fin)
qed

lemma avg_gain_eq:
  "avg_gain (x # xs) p = NaN # usable_from p 0 (smooth (1 / of_nat p) (day_gains (x # xs)))"
  by (simp only: avg_gain_def gain_eq ewm_mean_series)

lemma avg_loss_eq:
  "avg_loss (x # xs) p = NaN # usable_from p 0 (smooth (1 / of_nat p) (day_losses (x # xs)))"
  by (simp only: avg_loss_def loss_eq ewm_mean_series)

lemma length_day_gains: "length (day_gains xs) = length xs - 1"
  by (simp add: day_gains_def)

lemma length_day_losses: "length (day_losses xs) = length xs - 1"
  by (simp add: day_losses_def)




lemma smooth_step_nonneg:
  assumes "0 \<le> a" "a \<le> 1" "0 \<le> w" "0 \<le> x"
  shows "(0::rat) \<le> (1 - a) * w + a * x"
proof -
  have "0 \<le> (1 - a) * w" using assms by (intro mult_nonneg_nonneg) simp_all
  moreover have "0 \<le> a * x" using assms by (intro mult_nonneg_nonneg)
  ultimately show ?thesis by (rule add_nonneg_nonneg)
qed

lemma smooth_from_nonneg:
  "0 \<le> a \<Longrightarrow> a \<le> 1 \<Longrightarrow> 0 \<le> w \<Longrightarrow> list_all (\<lambda>x. 0 \<le> x) xs \<Longrightarrow>
   list_all (\<lambda>y. 0 \<le> y) (smooth_from a w xs)"
proof (induction xs arbitrary: w)
  case Nil
  then show ?case by simp
next
  case (Cons x xs)
  from Cons.prems have x0: "0 \<le> x" and rest: "list_all (\<lambda>y. 0 \<le> y) xs" by simp_all
  have w0: "0 \<le> (1 - a) * w + a * x"
    using Cons.prems(1,2,3) x0 by (rule smooth_step_nonneg)
  have "list_all (\<lambda>y. 0 \<le> y) (smooth_from a ((1 - a) * w + a * x) xs)"
    using Cons.prems(1,2) w0 rest by (rule Cons.IH)
  with w0 show ?case by simp
qed

lemma smooth_nonneg:
  "0 \<le> a \<Longrightarrow> a \<le> 1 \<Longrightarrow> list_all (\<lambda>x. 0 \<le> x) xs \<Longrightarrow> list_all (\<lambda>y. 0 \<le> y) (smooth a xs)"
  by (cases xs) (simp_all add: smooth_from_nonneg)



lemma day_gains_nonneg: "list_all (\<lambda>x. 0 \<le> x) (day_gains xs)"
  by (simp add: day_gains_def list_all_iff split_def)

lemma day_losses_nonneg: "list_all (\<lambda>x. 0 \<le> x) (day_losses xs)"
  by (simp add: day_losses_def list_all_iff split_def)



lemma rsi_step:
  assumes "0 \<le> ag" "0 \<le> al"
  shows "fsub (Fin 100) (fdiv (Fin 100) (fadd (Fin 1) (fdiv (Fin ag) (replace_zero_inf (Fin al)))))
     = Fin (rsi_of ag al)"
proof (cases "al = 0")
  case True
  have "replace_zero_inf (Fin al) = PInf"
    using True by (simp add: replace_zero_inf_def)
  then show ?thesis
    using True by (simp add: rsi_of_def fsub_def)
next
  case False
  have r: "replace_zero_inf (Fin al) = Fin al"
    using False by (simp add: replace_zero_inf_def)
  have d: "fdiv (Fin ag) (Fin al) = Fin (ag / al)"
    using False by simp
  have "0 \<le> ag / al" using assms by (rule divide_nonneg_nonneg)
  then have q0: "1 + ag / al \<noteq> 0" by linarith
  have s: "fsub (Fin 100) (fdiv (Fin 100) (Fin (1 + ag / al))) = Fin (100 - 100 / (1 + ag / al))"
    using q0 by (simp add: fsub_def)
  have v: "rsi_of ag al = 100 - 100 / (1 + ag / al)"
    using False by (simp only: rsi_of_def if_False)
  show ?thesis
    by (simp only: r d fadd.simps s v)
qed

lemma smooth_nth_nonneg:
  assumes "0 \<le> a" "a \<le> 1" "list_all (\<lambda>x. 0 \<le> x) xs" "i < length xs"
  shows "0 \<le> smooth a xs ! i"
proof -
  have "list_all (\<lambda>y. 0 \<le> y) (smooth a xs)"
    using assms(1,2,3) by (rule smooth_nonneg)
  moreover have "i < length (smooth a xs)"
    using assms(4) by (simp add: length_smooth)
  ultimately show ?thesis by (simp add: list_all_length)
qed

lemma avg_gain_nth:
  assumes "0 < i" "i < length xs"
  shows "avg_gain xs p ! i =
    (if p \<le> i then Fin (smooth (1 / of_nat p) (day_gains xs) ! (i - 1)) else NaN)"
proof -
  from assms obtain x rest where xs: "xs = x # rest" by (cases xs) auto
  from assms obtain j where i: "i = Suc j" by (cases i) auto
  have j: "j < length (smooth (1 / of_nat p) (day_gains xs))"
    using assms i by (simp add: length_smooth length_day_gains)
  show ?thesis
    unfolding xs avg_gain_eq
    using j usable_from_nth[OF j, of p 0] by (simp add: i xs)
qed

lemma avg_loss_nth:
  assumes "0 < i" "i < length xs"
  shows "avg_loss xs p ! i =
    (if p \<le> i then Fin (smooth (1 / of_nat p) (day_losses xs) ! (i - 1)) else NaN)"
proof -
  from assms obtain x rest where xs: "xs = x # rest" by (cases xs) auto
  from assms obtain j where i: "i = Suc j" by (cases i) auto
  have j: "j < length (smooth (1 / of_nat p) (day_losses xs))"
    using assms i by (simp add: length_smooth length_day_losses)
  show ?thesis
    unfolding xs avg_loss_eq
    using j usable_from_nth[OF j, of p 0] by (simp add: i xs)
qed

lemma calc_rsi_Inr:
  "0 < p \<Longrightarrow> calc_rsi xs p =
     Inr (map (\<lambda>(g, l). fsub (Fin 100) (fdiv (Fin 100) (fadd (Fin 1) (fdiv g (replace_zero_inf l)))))
            (zip (avg_gain xs p) (avg_loss xs p)))"
  by (simp add: calc_rsi_def Let_def split_def)

lemma calc_rsi_nth:
  assumes "0 < p" "p \<le> i" "i < length xs" "calc_rsi xs p = Inr r"
  shows "r ! i = Fin (rsi_of (smooth (1 / of_nat p) (day_gains xs) ! (i - 1))
                            (smooth (1 / of_nat p) (day_losses xs) ! (i - 1)))"
proof -
  let ?a = "1 / of_nat p :: rat"
  have a0: "0 \<le> ?a" by simp
  have a1: "?a \<le> 1" using assms(1) by simp
  have i0: "0 < i" using assms(1,2) by simp
  have j: "i - 1 < length (day_gains xs)" "i - 1 < length (day_losses xs)"
    using assms(3) i0 by (simp_all add: length_day_gains length_day_losses)
  have g0: "0 \<le> smooth ?a (day_gains xs) ! (i - 1)"
    using a0 a1 day_gains_nonneg j(1) by (rule smooth_nth_nonneg)
  have l0: "0 \<le> smooth ?a (day_losses xs) ! (i - 1)"
    using a0 a1 day_losses_nonneg j(2) by (rule smooth_nth_nonneg)
  have r: "r = map (\<lambda>(g, l). fsub (Fin 100) (fdiv (Fin 100) (fadd (Fin 1) (fdiv g (replace_zero_inf l)))))
            (zip (avg_gain xs p) (avg_loss xs p))"
    using calc_rsi_Inr[OF assms(1), of xs] assms(4) by simp
  have "r ! i = fsub (Fin 100) (fdiv (Fin 100) (fadd (Fin 1)
                  (fdiv (avg_gain xs p ! i) (replace_zero_inf (avg_loss xs p ! i)))))"
    unfolding r using assms(3) by (simp add: length_avg_gain length_avg_loss)
  also have "\<dots> = fsub (Fin 100) (fdiv (Fin 100) (fadd (Fin 1)
                  (fdiv (Fin (smooth ?a (day_gains xs) ! (i - 1)))
                     (replace_zero_inf (Fin (smooth ?a (day_losses xs) ! (i - 1)))))))"
    using assms(2) by (simp only: avg_gain_nth[OF i0 assms(3)] avg_loss_nth[OF i0 assms(3)] if_True)
  also have "\<dots> = Fin (rsi_of (smooth ?a (day_gains xs) ! (i - 1)) (smooth ?a (day_losses xs) ! (i - 1)))"
    using g0 l0 by (rule rsi_step)
  finally show ?thesis .
qed

subsection \<open>The rolling mean at the latest index\<close>

lemma rolling_mean_length: "length (rolling_mean w xs) = length xs"
  by (simp add: rolling_mean_def)

lemma rolling_mean_last:
  assumes "0 < w" "w \<le> length xs"
  shows "rolling_mean w xs ! (length xs - 1) = Fin (trailing_mean w xs)"
proof -
  have n: "length xs - 1 < length xs" using assms by simp
  have "rolling_mean w xs ! (length xs - 1)
        = Fin (sum_list (take w (drop (length xs - 1 + 1 - w) xs)) / of_nat w)"
    using n assms by (simp add: rolling_mean_def)
  moreover have "length xs - 1 + 1 - w = length xs - w" using assms by simp
  moreover have "take w (drop (length xs - w) xs) = drop (length xs - w) xs"
    using assms by simp
  ultimately show ?thesis by (simp add: trailing_mean_def)
qed

subsection \<open>The indicators of a series with at least three closes\<close>

lemma iloc_neg_Inr:
  "1 \<le> k \<Longrightarrow> k \<le> length xs \<Longrightarrow> iloc_neg xs k = Inr (xs ! (length xs - k))"
  by (simp add: iloc_neg_def)

lemma calc_rsi_latest:
  assumes "3 \<le> length close"
  shows "calc_rsi close 2 =
           Inr (map (\<lambda>(g, l). fsub (Fin 100) (fdiv (Fin 100) (fadd (Fin 1) (fdiv g (replace_zero_inf l)))))
                  (zip (avg_gain close 2) (avg_loss close 2)))"
    and "calc_rsi close 2 = Inr r \<Longrightarrow> length r = length close"
    and "calc_rsi close 2 = Inr r \<Longrightarrow> r ! (length close - 1) = Fin (latest_rsi close)"
proof -
  show "calc_rsi close 2 =
           Inr (map (\<lambda>(g, l). fsub (Fin 100) (fdiv (Fin 100) (fadd (Fin 1) (fdiv g (replace_zero_inf l)))))
                  (zip (avg_gain close 2) (avg_loss close 2)))"
    by (rule calc_rsi_Inr) simp
  show "calc_rsi close 2 = Inr r \<Longrightarrow> length r = length close"
    by (rule calc_rsi_length)
  assume r: "calc_rsi close 2 = Inr r"
  have p: "0 < (2::nat)" by simp
  have i: "2 \<le> length close - 1" using assms by simp
  have n: "length close - 1 < length close" using assms by simp
  have "r ! (length close - 1) =
          Fin (rsi_of (smooth (1 / of_nat 2) (day_gains close) ! (length close - 1 - 1))
                      (smooth (1 / of_nat 2) (day_losses close) ! (length close - 1 - 1)))"
    using p i n r by (rule calc_rsi_nth)
  moreover have "length close - 1 - 1 = length close - 2" by simp
  ultimately show "r ! (length close - 1) = Fin (latest_rsi close)"
    by (simp add: latest_rsi_def)
qed

lemma run_indicators_eq:
  assumes "3 \<le> length close"
  shows "run_indicators close =
    Inr \<lparr> last_close = py_round (Fin (last close)) 2,
          last_rsi2 = py_round (Fin (latest_rsi close)) 2,
          last_sma200 = py_round (rolling_mean 200 close ! (length close - 1)) 2,
          rsi2_below_30 = (if flt (py_round (Fin (latest_rsi close)) 2) (Fin 30) then 1 else 0),
          three_lower =
            (if close ! (length close - 1) < close ! (length close - 2)
                \<and> close ! (length close - 2) < close ! (length close - 3) then 1 else 0),
          above_sma200 =
            (if flt (py_round (rolling_mean 200 close ! (length close - 1)) 2)
                    (py_round (Fin (last close)) 2) then 1 else 0) \<rparr>"
proof -
  obtain r where r: "calc_rsi close 2 = Inr r"
    using calc_rsi_latest(1)[OF assms] by blast
  have lr: "length r = length close" using assms r by (rule calc_rsi_latest(2))
  have rl: "r ! (length close - 1) = Fin (latest_rsi close)" using assms r by (rule calc_rsi_latest(3))
  have ne: "close \<noteq> []" using assms by auto
  have c1: "iloc_neg close 1 = Inr (last close)"
    using assms ne by (simp add: iloc_neg_Inr last_conv_nth)
  have c2: "iloc_neg close 2 = Inr (close ! (length close - 2))"
    using assms by (simp add: iloc_neg_Inr)
  have c3: "iloc_neg close 3 = Inr (close ! (length close - 3))"
    using assms by (simp add: iloc_neg_Inr)
  have r1: "iloc_neg r 1 = Inr (Fin (latest_rsi close))"
    using assms lr rl by (simp add: iloc_neg_Inr)
  have s1: "iloc_neg (rolling_mean 200 close) 1 = Inr (rolling_mean 200 close ! (length close - 1))"
    using assms by (simp add: iloc_neg_Inr rolling_mean_length)
  have l: "last close = close ! (length close - 1)"
    using ne by (rule last_conv_nth)
  show ?thesis
    unfolding run_indicators_def r Let_def and_then.simps c1 r1 s1 c2 c3
    by (simp add: l)
qed

subsection \<open>Rounding half to even\<close>


lemma rint_cases:
  fixes y :: rat
  obtains (down) "y - of_int \<lfloor>y\<rfloor> < 1 / 2" "rint y = \<lfloor>y\<rfloor>"
  | (up) "1 / 2 < y - of_int \<lfloor>y\<rfloor>" "rint y = \<lfloor>y\<rfloor> + 1"
  | (tie_even) "y - of_int \<lfloor>y\<rfloor> = 1 / 2" "even \<lfloor>y\<rfloor>" "rint y = \<lfloor>y\<rfloor>"
  | (tie_odd) "y - of_int \<lfloor>y\<rfloor> = 1 / 2" "odd \<lfloor>y\<rfloor>" "rint y = \<lfloor>y\<rfloor> + 1"
proof -
  consider "y - of_int \<lfloor>y\<rfloor> < 1 / 2" | "1 / 2 < y - of_int \<lfloor>y\<rfloor>"
    | "y - of_int \<lfloor>y\<rfloor> = 1 / 2" by linarith
  then show thesis
  proof cases
    case 1
    then have "rint y = \<lfloor>y\<rfloor>" by (simp add: rint_def Let_def)
    with 1 show thesis by (rule down)
  next
    case 2
    then have "rint y = \<lfloor>y\<rfloor> + 1" by (simp add: rint_def Let_def)
    with 2 show thesis by (rule up)
  next
    case 3
    show thesis
    proof (cases "even \<lfloor>y\<rfloor>")
      case True
      with 3 have "rint y = \<lfloor>y\<rfloor>" by (simp add: rint_def Let_def)
      with 3 True show thesis by (rule tie_even)
    next
      case False
      with 3 have "rint y = \<lfloor>y\<rfloor> + 1" by (simp add: rint_def Let_def)
      with 3 False show thesis by (rule tie_odd)
    qed
  qed
qed



lemma rint_ge_floor: "\<lfloor>y\<rfloor> \<le> rint y"
  by (cases y rule: rint_cases) simp_all

lemma rint_le_floor1: "rint y \<le> \<lfloor>y\<rfloor> + 1"
  by (cases y rule: rint_cases) simp_all

lemma rint_mono:
  assumes "x \<le> y"
  shows "rint x \<le> rint y"
proof (cases "\<lfloor>x\<rfloor> = \<lfloor>y\<rfloor>")
  case False
  from assms have "\<lfloor>x\<rfloor> \<le> \<lfloor>y\<rfloor>" by (rule floor_mono)
  with False have "\<lfloor>x\<rfloor> + 1 \<le> \<lfloor>y\<rfloor>" by simp
  with rint_le_floor1[of x] rint_ge_floor[of y] show ?thesis by linarith
next
  case True
  have fr: "x - of_int \<lfloor>x\<rfloor> \<le> y - of_int \<lfloor>y\<rfloor>" using assms True by simp
  show ?thesis
  proof (cases x rule: rint_cases)
    case down
    with True rint_ge_floor[of y] show ?thesis by simp
  next
    case up
    with fr have "1 / 2 < y - of_int \<lfloor>y\<rfloor>" by linarith
    then have "rint y = \<lfloor>y\<rfloor> + 1" by (simp add: rint_def Let_def)
    with up True show ?thesis by simp
  next
    case tie_even
    with True rint_ge_floor[of y] show ?thesis by simp
  next
    case tie_odd
    show ?thesis
    proof (cases "y - of_int \<lfloor>y\<rfloor> = 1 / 2")
      case eq: True
      with tie_odd True have "rint y = \<lfloor>y\<rfloor> + 1" by (simp add: rint_def Let_def)
      with tie_odd True show ?thesis by simp
    next
      case False
      with fr tie_odd have "1 / 2 < y - of_int \<lfloor>y\<rfloor>" by linarith
      then have "rint y = \<lfloor>y\<rfloor> + 1" by (simp add: rint_def Let_def)
      with tie_odd True show ?thesis by simp
    qed
  qed
qed

lemma rint_below_3000: "rint y < 3000 \<longleftrightarrow> y < 5999 / 2"
proof
  assume lt: "rint y < 3000"
  show "y < 5999 / 2"
  proof (rule ccontr)
    assume "\<not> y < 5999 / 2"
    then have ge: "5999 / 2 \<le> y" by simp
    have "rint (5999 / 2) = 3000" by code_simp
    with rint_mono[OF ge] lt show False by simp
  qed
next
  assume lt: "y < 5999 / 2"
  have fl: "\<lfloor>y\<rfloor> \<le> 2999" using lt by (simp add: floor_le_iff)
  show "rint y < 3000"
  proof (cases "\<lfloor>y\<rfloor> = 2999")
    case True
    with lt have "y - of_int \<lfloor>y\<rfloor> < 1 / 2" by simp
    then have "rint y = \<lfloor>y\<rfloor>" by (simp add: rint_def Let_def)
    with True show ?thesis by simp
  next
    case False
    with fl have "\<lfloor>y\<rfloor> + 1 \<le> 2999" by arith
    with rint_le_floor1[of y] show ?thesis by linarith
  qed
qed



lemma py_round_less_imp:
  assumes "flt (py_round (Fin a) 2) (py_round (Fin b) 2)"
  shows "a < b"
proof (rule ccontr)
  assume "\<not> a < b"
  then have "b * 100 \<le> a * 100" by simp
  then have "rint (b * 100) \<le> rint (a * 100)" by (rule rint_mono)
  moreover from assms have "rint (a * 100) < rint (b * 100)" by simp
  ultimately show False by simp
qed

lemma py_round_below_30: "flt (py_round (Fin q) 2) (Fin 30) \<longleftrightarrow> q < 5999 / 200"
proof -
  have "flt (py_round (Fin q) 2) (Fin 30) \<longleftrightarrow> rint (q * 100) < 3000" by simp
  also have "\<dots> \<longleftrightarrow> q * 100 < 5999 / 2" by (rule rint_below_3000)
  also have "\<dots> \<longleftrightarrow> q < 5999 / 200" by linarith
  finally show ?thesis .
qed

lemma rolling_mean_200_last:
  "200 \<le> length close \<Longrightarrow>
     rolling_mean 200 close ! (length close - 1) = Fin (trailing_mean 200 close)"
  by (rule rolling_mean_last) simp_all

lemma last_calc_rsi:
  assumes "3 \<le> length close" "calc_rsi close 2 = Inr r"
  shows "last r = Fin (latest_rsi close)"
proof -
  have lr: "length r = length close" using assms by (rule calc_rsi_latest(2))
  then have "r \<noteq> []" using assms(1) by auto
  then have "last r = r ! (length r - 1)" by (rule last_conv_nth)
  also have "\<dots> = Fin (latest_rsi close)"
    unfolding lr using assms by (rule calc_rsi_latest(3))
  finally show ?thesis .
qed

lemma last_rolling_mean:
  assumes "200 \<le> length close"
  shows "last (rolling_mean 200 close) = Fin (trailing_mean 200 close)"
proof -
  have ne: "rolling_mean 200 close \<noteq> []"
    using assms rolling_mean_length[of 200 close] by auto
  have "last (rolling_mean 200 close) = rolling_mean 200 close ! (length close - 1)"
    by (simp only: last_conv_nth[OF ne] rolling_mean_length)
  also have "\<dots> = Fin (trailing_mean 200 close)"
    using assms by (rule rolling_mean_200_last)
  finally show ?thesis .
qed

lemma run_indicators_valid:
  assumes "210 \<le> length close"
  shows "run_indicators close =
    Inr \<lparr> last_close = py_round (Fin (last close)) 2,
          last_rsi2 = py_round (Fin (latest_rsi close)) 2,
          last_sma200 = py_round (Fin (trailing_mean 200 close)) 2,
          rsi2_below_30 = (if flt (py_round (Fin (latest_rsi close)) 2) (Fin 30) then 1 else 0),
          three_lower =
            (if close ! (length close - 1) < close ! (length close - 2)
                \<and> close ! (length close - 2) < close ! (length close - 3) then 1 else 0),
          above_sma200 =
            (if flt (py_round (Fin (trailing_mean 200 close)) 2)
                    (py_round (Fin (last close)) 2) then 1 else 0) \<rparr>"
proof -
  have 3: "3 \<le> length close" and 200: "200 \<le> length close" using assms by simp_all
  show ?thesis
    by (simp only: run_indicators_eq[OF 3] rolling_mean_200_last[OF 200])
qed


subsection \<open>Too few observations\<close>

text \<open>
  C2: when the download delivers fewer than 210 closes (the empty series included), run
  raises the insufficient-data error, the only external action has been the download
  (no news request, no clock, no open, no write, no print), and spy_signals.json is as
  it was before.
\<close>

theorem run_insufficient_data:
  assumes "feed w = Inr df" and "length df < 210"
  shows "run w = \<lparr> result = Inl (NotEnoughData (length df)),
                   file_after = snapshot_file w, events = [EvDownload] \<rparr>"
  using assms by (simp add: run_def run_payload_def)

theorem run_insufficient_data_witness:
  "run \<lparr> feed = Inr [100, 101, 102], news_feed = NewsRaises, clock = ''2024-01-02T21:30:00Z'',
         snapshot_file = Some [JOpen, JClose], storage = StorageOk \<rparr>
   = \<lparr> result = Inl (NotEnoughData 3), file_after = Some [JOpen, JClose],
       events = [EvDownload] \<rparr>"
  using run_insufficient_data
    [of "\<lparr> feed = Inr [100, 101, 102], news_feed = NewsRaises,
            clock = ''2024-01-02T21:30:00Z'',
            snapshot_file = Some [JOpen, JClose], storage = StorageOk \<rparr>" "[100, 101, 102]"]
  by simp

subsection \<open>Three lower closes\<close>

text \<open>
  C3: for every series with at least 3 closes, the indicators are computed and
  \<open>three_lower\<close> is 1 exactly when the three most recent closes are strictly
  decreasing, \<open>close[t] < close[t-1] < close[t-2]\<close>; an equality or an increase at
  either step gives 0.
\<close>

theorem three_lower_closes_iff:
  assumes "3 \<le> length close"
  shows "\<exists>s. run_indicators close = Inr s \<and>
           three_lower s =
             (if close ! (length close - 1) < close ! (length close - 2)
                 \<and> close ! (length close - 2) < close ! (length close - 3) then 1 else 0)"
  by (simp only: run_indicators_eq[OF assms]) simp

theorem three_lower_closes_iff_witness:
  "3 \<le> length [102, 101, 100 :: rat] \<and>
   (\<exists>s. run_indicators [102, 101, 100] = Inr s \<and> three_lower s = 1) \<and>
   3 \<le> length [100, 101, 100 :: rat] \<and>
   (\<exists>s. run_indicators [100, 101, 100] = Inr s \<and> three_lower s = 0)"
  using three_lower_closes_iff[of "[102, 101, 100]"] three_lower_closes_iff[of "[100, 101, 100]"]
  by simp

subsection \<open>A column of finite closes\<close>

text \<open>
  On a column whose entries are all finite the definitions for arbitrary floats agree
  with the ones for finite closes.
\<close>

lemma all_fin_map_Fin: "list_all is_fin xs \<Longrightarrow> \<exists>qs. xs = map Fin qs"
proof (induction xs)
  case Nil
  then show ?case by simp
next
  case (Cons x xs)
  then obtain qs where qs: "xs = map Fin qs" by auto
  from Cons.prems obtain q where "x = Fin q" by (cases x) simp_all
  with qs have "x # xs = map Fin (q # qs)" by simp
  then show ?case by (rule exI)
qed

lemma diff_raw_Fin: "diff_raw (map Fin qs) = diff qs"
proof (cases qs)
  case Nil
  then show ?thesis by simp
next
  case (Cons x xs)
  have "map (\<lambda>(a, b). fsub b a) (zip (map Fin (x # xs)) (map Fin xs))
        = map (\<lambda>(a, b). Fin (b - a)) (zip (x # xs) xs)"
    unfolding zip_map_map by (simp add: fsub_def case_prod_unfold)
  with Cons show ?thesis by simp
qed

lemma calc_rsi_raw_Fin: "calc_rsi_raw (map Fin qs) p = calc_rsi qs p"
  by (simp only: calc_rsi_raw_def calc_rsi_def avg_gain_def avg_loss_def gain_def loss_def
        diff_raw_Fin Let_def)

lemma foldl_fadd_Fin: "foldl fadd (Fin a) (map Fin ys) = Fin (a + sum_list ys)"
  by (induction ys arbitrary: a) (simp_all add: add.assoc)

lemma list_ex_is_nan_Fin: "\<not> list_ex is_nan (map Fin ys)"
  by (induction ys) simp_all

lemma rolling_mean_raw_Fin: "rolling_mean_raw 200 (map Fin qs) = rolling_mean 200 qs"
proof -
  have w: "\<And>i. take 200 (drop (i + 1 - 200) (map Fin qs))
              = map Fin (take 200 (drop (i + 1 - 200) qs))"
    by (simp only: drop_map take_map)
  have m: "\<And>ys. fdiv (foldl fadd (Fin 0) (map Fin ys)) (Fin (of_nat 200))
              = Fin (sum_list ys / of_nat 200)"
    by (simp add: foldl_fadd_Fin)
  show ?thesis
    unfolding rolling_mean_raw_def rolling_mean_def Let_def w
    by (simp only: list_ex_is_nan_Fin m length_map simp_thms)
qed

lemma and_then_iloc_neg_Fin:
  "and_then (iloc_neg (map Fin qs) k) f = and_then (iloc_neg qs k) (\<lambda>c. f (Fin c))"
proof (cases "1 \<le> k \<and> k \<le> length qs")
  case True
  then have "length qs - k < length qs" by arith
  then have "map Fin qs ! (length qs - k) = Fin (qs ! (length qs - k))" by (rule nth_map)
  with True show ?thesis by (simp add: iloc_neg_def)
next
  case False
  then have "iloc_neg (map Fin qs) k = Inl IndexError" and "iloc_neg qs k = Inl IndexError"
    by (auto simp add: iloc_neg_def)
  then show ?thesis by simp
qed

lemma run_indicators_raw_Fin: "run_indicators_raw (map Fin qs) = run_indicators qs"
  unfolding run_indicators_raw_def run_indicators_def calc_rsi_raw_Fin rolling_mean_raw_Fin
    and_then_iloc_neg_Fin flt.simps
  by (rule refl)

lemma run_payload_raw_Fin:
  assumes "feed w = Inr qs"
  shows "run_payload w = run_payload_raw (map Fin qs) (fetch_spy_news (news_feed w)) (clock w)"
  unfolding run_payload_def run_payload_raw_def assms and_then.simps run_indicators_raw_Fin
  by simp

lemma finite_closes_payload:
  assumes "210 \<le> length qs"
  shows "\<exists>p. run_payload_raw (map Fin qs) h now = Inr p \<and>
           is_fin (m_last_close (p_metrics p)) \<and> is_fin (m_rsi2 (p_metrics p)) \<and>
           is_fin (m_sma200 (p_metrics p)) \<and>
           list_all (\<lambda>t. t \<noteq> JNum NaN) (json_tokens p)"
proof -
  have c: "\<not> (map Fin qs = [] \<or> length (map Fin qs) < 210)" using assms by auto
  show ?thesis
    unfolding run_payload_raw_def run_indicators_raw_Fin
    using c by (simp add: run_indicators_valid[OF assms] make_payload_def json_tokens_def)
qed

subsection \<open>A valid series of finite closes makes every access defined\<close>

text \<open>
  C10, as the code has it: for every column of at least 210 closes that are all finite numbers,
  the positions -1, -2 and -3 are in bounds and hold finite closes, the latest period-2
  RSI and the latest value of the 200-period rolling mean are finite numbers (not NaN),
  the payload is built, its three metrics are finite and no NaN is among the tokens of
  the snapshot; and this is the payload of every run that downloads these closes. The
  condition that the closes are finite is needed: the row count alone does not give it.
\<close>

theorem finite_series_all_defined:
  assumes "210 \<le> length closes" and "list_all is_fin closes"
  shows "(\<exists>c1 c2 c3. iloc_neg closes 1 = Inr (Fin c1) \<and> iloc_neg closes 2 = Inr (Fin c2) \<and>
            iloc_neg closes 3 = Inr (Fin c3)) \<and>
         (\<exists>r. calc_rsi_raw closes 2 = Inr r \<and> length r = length closes \<and> is_fin (last r)) \<and>
         length (rolling_mean_raw 200 closes) = length closes \<and>
         is_fin (last (rolling_mean_raw 200 closes)) \<and>
         (\<exists>p. run_payload_raw closes headline now = Inr p \<and>
            is_fin (m_last_close (p_metrics p)) \<and> is_fin (m_rsi2 (p_metrics p)) \<and>
            is_fin (m_sma200 (p_metrics p)) \<and>
            list_all (\<lambda>t. t \<noteq> JNum NaN) (json_tokens p)) \<and>
         (feed w = Inr qs \<and> closes = map Fin qs \<longrightarrow>
            run_payload w = run_payload_raw closes (fetch_spy_news (news_feed w)) (clock w))"
proof -
  obtain cs where qs: "closes = map Fin cs"
    using all_fin_map_Fin[OF assms(2)] by blast
  have 210: "210 \<le> length cs" using assms(1) qs by simp
  then have 3: "3 \<le> length cs" and 200: "200 \<le> length cs" by simp_all
  have il: "\<exists>c1 c2 c3. iloc_neg closes 1 = Inr (Fin c1) \<and> iloc_neg closes 2 = Inr (Fin c2) \<and>
            iloc_neg closes 3 = Inr (Fin c3)"
    unfolding qs using 3 by (simp add: iloc_neg_def)
  obtain r where r: "calc_rsi cs 2 = Inr r"
    using calc_rsi_latest(1)[OF 3] by blast
  have lr: "length r = length closes"
    using calc_rsi_latest(2)[OF 3 r] qs by simp
  have fr: "is_fin (last r)" using last_calc_rsi[OF 3 r] by simp
  have rsi: "\<exists>r. calc_rsi_raw closes 2 = Inr r \<and> length r = length closes \<and> is_fin (last r)"
    unfolding qs calc_rsi_raw_Fin using r lr fr qs by simp
  have len: "length (rolling_mean_raw 200 closes) = length closes"
    unfolding qs rolling_mean_raw_Fin by (simp add: rolling_mean_length)
  have sma: "is_fin (last (rolling_mean_raw 200 closes))"
    unfolding qs rolling_mean_raw_Fin using last_rolling_mean[OF 200] by simp
  have pay: "\<exists>p. run_payload_raw closes headline now = Inr p \<and>
            is_fin (m_last_close (p_metrics p)) \<and> is_fin (m_rsi2 (p_metrics p)) \<and>
            is_fin (m_sma200 (p_metrics p)) \<and>
            list_all (\<lambda>t. t \<noteq> JNum NaN) (json_tokens p)"
    unfolding qs using 210 by (rule finite_closes_payload)
  have run: "feed w = Inr qs \<and> closes = map Fin qs \<longrightarrow>
            run_payload w = run_payload_raw closes (fetch_spy_news (news_feed w)) (clock w)"
    using run_payload_raw_Fin[of w qs] by blast
  from il rsi len sma pay run show ?thesis by (intro conjI)
qed

theorem finite_series_all_defined_witness:
  "210 \<le> length (replicate 209 (Fin 100) @ [Fin 90]) \<and>
   list_all is_fin (replicate 209 (Fin 100) @ [Fin 90]) \<and>
   (\<exists>r. calc_rsi_raw (replicate 209 (Fin 100) @ [Fin 90]) 2 = Inr r \<and> length r = 210 \<and>
        is_fin (last r)) \<and>
   is_fin (last (rolling_mean_raw 200 (replicate 209 (Fin 100) @ [Fin 90]))) \<and>
   (\<exists>p. run_payload_raw (replicate 209 (Fin 100) @ [Fin 90]) '''' ''2024-01-02T21:30:00Z'' = Inr p \<and>
        is_fin (m_last_close (p_metrics p)) \<and> is_fin (m_rsi2 (p_metrics p)) \<and>
        is_fin (m_sma200 (p_metrics p)))"
proof -
  have h: "210 \<le> length (replicate 209 (Fin 100) @ [Fin 90])" by simp
  have f: "list_all is_fin (replicate 209 (Fin 100) @ [Fin 90])"
    by (simp add: list_all_iff)
  show ?thesis
    using h f finite_series_all_defined[OF h f, where headline = "[]"
        and now = "''2024-01-02T21:30:00Z''" and w = no_news_world and qs = "[]"]
    by auto
qed

text \<open>
  C10 as stated fails without that condition. A column of 210 rows, 209 closes of 100 and a
  last row whose close is NaN, passes the row count of line 39. \<open>round(NaN, 2)\<close> is NaN,
  the last window of the rolling mean holds only 199 numbers, so its mean is NaN, and
  both are written to the snapshot as the metrics \<open>last_close\<close> and \<open>sma200\<close>.
\<close>

theorem nan_close_counterexample:
  "length (replicate 209 (Fin 100) @ [NaN]) = 210 \<and>
   run_payload_raw (replicate 209 (Fin 100) @ [NaN]) '''' ''2024-01-02T21:30:00Z'' =
     Inr \<lparr> ticker = ''SPY'', p_rsi_2_below_30 = 1, p_three_lower_closes = 0,
           p_above_sma200 = 0,
           p_metrics = \<lparr> m_last_close = NaN, m_rsi2 = Fin 0, m_sma200 = NaN, m_news = '''' \<rparr>,
           updated_at = ''2024-01-02T21:30:00Z'' \<rparr> \<and>
   take 6 (drop 11 (json_tokens
     \<lparr> ticker = ''SPY'', p_rsi_2_below_30 = 1, p_three_lower_closes = 0,
       p_above_sma200 = 0,
       p_metrics = \<lparr> m_last_close = NaN, m_rsi2 = Fin 0, m_sma200 = NaN, m_news = '''' \<rparr>,
       updated_at = ''2024-01-02T21:30:00Z'' \<rparr>)) =
     [JKey ''last_close'', JNum NaN, JKey ''rsi2'', JNum (Fin 0), JKey ''sma200'', JNum NaN]"
  by code_simp

subsection \<open>Above the long average\<close>

text \<open>
  C4, as the code has it: for every series of at least 210 closes, \<open>above_sma200\<close> is 1
  exactly when the latest close rounded to 2 decimal places strictly exceeds the mean of
  the trailing 200 closes rounded to 2 decimal places. Hence a 1 implies that the
  unrounded close strictly exceeds the unrounded mean, and equality gives 0.
\<close>

theorem above_sma200_compares_rounded:
  assumes "210 \<le> length close"
  shows "\<exists>s. run_indicators close = Inr s \<and>
           above_sma200 s =
             (if flt (py_round (Fin (trailing_mean 200 close)) 2) (py_round (Fin (last close)) 2)
              then 1 else 0) \<and>
           (above_sma200 s = 1 \<longrightarrow> trailing_mean 200 close < last close) \<and>
           (last close = trailing_mean 200 close \<longrightarrow> above_sma200 s = 0)"
proof -
  have imp: "flt (py_round (Fin (trailing_mean 200 close)) 2) (py_round (Fin (last close)) 2)
             \<Longrightarrow> trailing_mean 200 close < last close"
    by (rule py_round_less_imp)
  have eq: "last close = trailing_mean 200 close \<Longrightarrow>
             \<not> flt (py_round (Fin (trailing_mean 200 close)) 2) (py_round (Fin (last close)) 2)"
    by simp
  show ?thesis
    using imp eq by (simp only: run_indicators_valid[OF assms]) auto
qed

subsection \<open>RSI below 30\<close>

text \<open>
  C5, as the code has it: for every series of at least 210 closes, \<open>rsi2_below_30\<close> is
  1 exactly when the latest period-2 RSI rounded to 2 decimal places is strictly below
  30, that is, exactly when the unrounded RSI is strictly below 29.995.
\<close>

theorem rsi2_below_30_uses_rounded:
  assumes "210 \<le> length close"
  shows "\<exists>s r q. run_indicators close = Inr s \<and> calc_rsi close 2 = Inr r \<and> last r = Fin q \<and>
           last_rsi2 s = py_round (Fin q) 2 \<and>
           rsi2_below_30 s = (if flt (last_rsi2 s) (Fin 30) then 1 else 0) \<and>
           (rsi2_below_30 s = 1 \<longleftrightarrow> q < 5999 / 200)"
proof -
  have 3: "3 \<le> length close" using assms by simp
  obtain r where r: "calc_rsi close 2 = Inr r"
    using calc_rsi_latest(1)[OF 3] by blast
  have l: "last r = Fin (latest_rsi close)" using 3 r by (rule last_calc_rsi)
  show ?thesis
    using r l by (simp add: run_indicators_valid[OF assms] py_round_below_30 del: py_round.simps)
qed

subsection \<open>The metrics of the snapshot are rounded to 2 decimal places\<close>



subsection \<open>Two concrete series\<close>

text \<open>
  209 closes of 100 followed by 100.004: the latest close is above the trailing mean
  100.00002, and both round to 100.00.
\<close>

lemma near_mean_indicators:
  "run_indicators (replicate 209 100 @ [100004 / 1000]) =
     Inr \<lparr> last_close = Fin 100, last_rsi2 = Fin 0, last_sma200 = Fin 100,
           rsi2_below_30 = 1, three_lower = 0, above_sma200 = 0 \<rparr>"
proof -
  let ?cx = "replicate 209 100 @ [100004 / 1000 :: rat]"
  have len: "210 \<le> length ?cx" by simp
  have a: "latest_rsi ?cx = 0" by code_simp
  have b: "trailing_mean 200 ?cx = 5000001 / 50000" by code_simp
  have c: "last ?cx = 100004 / 1000" by simp
  have n: "?cx ! (length ?cx - 1) = 100004 / 1000" "?cx ! (length ?cx - 2) = 100"
    "?cx ! (length ?cx - 3) = 100" by (simp_all add: nth_append)
  show ?thesis
    unfolding run_indicators_valid[OF len] a b c n by code_simp
qed

lemma near_mean_values:
  "trailing_mean 200 (replicate 209 100 @ [100004 / 1000]) = 5000001 / 50000"
  "last (replicate 209 100 @ [100004 / 1000 :: rat]) = 100004 / 1000"
  by code_simp simp

text \<open>
  C4 as stated fails on this series: the latest close strictly exceeds the mean of the
  trailing 200 closes, and \<open>above_sma200\<close> is 0.
\<close>

theorem above_sma200_counterexample:
  "run_indicators (replicate 209 100 @ [100004 / 1000]) =
     Inr \<lparr> last_close = Fin 100, last_rsi2 = Fin 0, last_sma200 = Fin 100,
           rsi2_below_30 = 1, three_lower = 0, above_sma200 = 0 \<rparr> \<and>
   trailing_mean 200 (replicate 209 100 @ [100004 / 1000])
     < last (replicate 209 100 @ [100004 / 1000])"
  by (simp only: near_mean_indicators near_mean_values) simp

text \<open>The series satisfies the hypothesis of the statement of C4 as the code has it.\<close>

theorem above_sma200_compares_rounded_witness:
  "210 \<le> length (replicate 209 100 @ [100004 / 1000 :: rat]) \<and>
   (\<exists>s. run_indicators (replicate 209 100 @ [100004 / 1000]) = Inr s \<and>
      above_sma200 s =
        (if flt (py_round (Fin (trailing_mean 200 (replicate 209 100 @ [100004 / 1000]))) 2)
                (py_round (Fin (last (replicate 209 100 @ [100004 / 1000]))) 2)
         then 1 else 0) \<and>
      (above_sma200 s = 1 \<longrightarrow>
         trailing_mean 200 (replicate 209 100 @ [100004 / 1000])
           < last (replicate 209 100 @ [100004 / 1000])) \<and>
      (last (replicate 209 100 @ [100004 / 1000])
         = trailing_mean 200 (replicate 209 100 @ [100004 / 1000]) \<longrightarrow>
       above_sma200 s = 0))"
proof -
  have h: "210 \<le> length (replicate 209 100 @ [100004 / 1000 :: rat])" by simp
  show ?thesis
    using h above_sma200_compares_rounded[OF h] by (rule conjI)
qed

text \<open>
  208 closes of 100 followed by 102.9997 and 99.49955: the latest RSI is 29.997, which
  rounds to 30.00.
\<close>

lemma near_30_indicators:
  "run_indicators (replicate 208 100 @ [1029997 / 10000, 9949955 / 100000]) =
     Inr \<lparr> last_close = Fin (199 / 2), last_rsi2 = Fin 30, last_sma200 = Fin (10001 / 100),
           rsi2_below_30 = 0, three_lower = 0, above_sma200 = 0 \<rparr>"
proof -
  let ?cx = "replicate 208 100 @ [1029997 / 10000, 9949955 / 100000 :: rat]"
  have len: "210 \<le> length ?cx" by simp
  have a: "latest_rsi ?cx = 29997 / 1000" by code_simp
  have b: "trailing_mean 200 ?cx = 800099970 / 8000000" by code_simp
  have c: "last ?cx = 9949955 / 100000" by simp
  have n: "?cx ! (length ?cx - 1) = 9949955 / 100000" "?cx ! (length ?cx - 2) = 1029997 / 10000"
    "?cx ! (length ?cx - 3) = 100" by (simp_all add: nth_append)
  show ?thesis
    unfolding run_indicators_valid[OF len] a b c n by code_simp
qed

lemma near_30_rsi:
  "map_sum id last (calc_rsi (replicate 208 100 @ [1029997 / 10000, 9949955 / 100000]) 2)
     = Inr (Fin (29997 / 1000))"
proof -
  let ?cx = "replicate 208 100 @ [1029997 / 10000, 9949955 / 100000 :: rat]"
  have 3: "3 \<le> length ?cx" by simp
  obtain r where r: "calc_rsi ?cx 2 = Inr r"
    using calc_rsi_latest(1)[OF 3] by blast
  have l: "last r = Fin (latest_rsi ?cx)" using 3 r by (rule last_calc_rsi)
  have v: "latest_rsi ?cx = 29997 / 1000" by code_simp
  show ?thesis by (simp only: r map_sum.simps id_apply l v)
qed

text \<open>
  C5 as stated fails on this series: the latest RSI is strictly below 30, and
  \<open>rsi2_below_30\<close> is 0.
\<close>

theorem rsi2_below_30_counterexample:
  "run_indicators (replicate 208 100 @ [1029997 / 10000, 9949955 / 100000]) =
     Inr \<lparr> last_close = Fin (199 / 2), last_rsi2 = Fin 30, last_sma200 = Fin (10001 / 100),
           rsi2_below_30 = 0, three_lower = 0, above_sma200 = 0 \<rparr> \<and>
   map_sum id last (calc_rsi (replicate 208 100 @ [1029997 / 10000, 9949955 / 100000]) 2)
     = Inr (Fin (29997 / 1000)) \<and>
   flt (Fin (29997 / 1000)) (Fin 30)"
  by (simp only: near_30_indicators near_30_rsi) simp

text \<open>The series satisfies the hypothesis of the statement of C5 as the code has it.\<close>

theorem rsi2_below_30_uses_rounded_witness:
  "210 \<le> length (replicate 208 100 @ [1029997 / 10000, 9949955 / 100000 :: rat]) \<and>
   (\<exists>s r q. run_indicators (replicate 208 100 @ [1029997 / 10000, 9949955 / 100000]) = Inr s \<and>
      calc_rsi (replicate 208 100 @ [1029997 / 10000, 9949955 / 100000]) 2 = Inr r \<and>
      last r = Fin q \<and>
      last_rsi2 s = py_round (Fin q) 2 \<and>
      rsi2_below_30 s = (if flt (last_rsi2 s) (Fin 30) then 1 else 0) \<and>
      (rsi2_below_30 s = 1 \<longleftrightarrow> q < 5999 / 200))"
proof -
  have h: "210 \<le> length (replicate 208 100 @ [1029997 / 10000, 9949955 / 100000 :: rat])"
    by simp
  show ?thesis
    using h rsi2_below_30_uses_rounded[OF h] by (rule conjI)
qed

subsection \<open>A zero average loss\<close>

text \<open>
  C1 says that a zero average loss gives RSI 100. The code does otherwise: for every
  period \<open>P \<ge> 1\<close> and every index \<open>i \<ge> P\<close> of the series (where the averages are
  defined), if \<open>avg_loss[i]\<close> is 0 then \<open>calc_rsi\<close> returns 0 at \<open>i\<close>: the zero is
  replaced by infinity in the denominator, \<open>rs\<close> is 0, and \<open>100 - 100 / (1 + 0) = 0\<close>.
  The strictly increasing series 1, 2, 3, 4 has period-2 RSI 0 at its last index.
\<close>

theorem rsi_is_zero_when_avg_loss_is_zero:
  assumes "0 < period" and "period \<le> i" and "i < length series"
    and "avg_loss series period ! i = Fin 0"
  shows "\<exists>r. calc_rsi series period = Inr r \<and> r ! i = Fin 0"
proof -
  obtain r where r: "calc_rsi series period = Inr r"
    using calc_rsi_Inr[OF assms(1)] by blast
  have i0: "0 < i" using assms(1,2) by simp
  have "avg_loss series period ! i
          = Fin (smooth (1 / of_nat period) (day_losses series) ! (i - 1))"
    using assms(2) by (simp only: avg_loss_nth[OF i0 assms(3)] if_True)
  with assms(4) have z: "smooth (1 / of_nat period) (day_losses series) ! (i - 1) = 0"
    by simp
  have "r ! i = Fin (rsi_of (smooth (1 / of_nat period) (day_gains series) ! (i - 1))
                            (smooth (1 / of_nat period) (day_losses series) ! (i - 1)))"
    using assms(1,2,3) r by (rule calc_rsi_nth)
  moreover have rz: "rsi_of g 0 = 0" for g by (simp add: rsi_of_def)
  ultimately have "r ! i = Fin 0" by (simp only: z rz)
  with r show ?thesis by blast
qed

theorem rsi_is_zero_when_avg_loss_is_zero_witness:
  "0 < (2::nat) \<and> (2::nat) \<le> 3 \<and> 3 < length [1, 2, 3, 4 :: rat] \<and>
   avg_loss [1, 2, 3, 4] 2 ! 3 = Fin 0 \<and>
   calc_rsi [1, 2, 3, 4] 2 = Inr [NaN, NaN, Fin 0, Fin 0] \<and>
   (\<exists>r. calc_rsi [1, 2, 3, 4] 2 = Inr r \<and> r ! 3 = Fin 0)"
proof -
  have a: "0 < (2::nat)" and b: "(2::nat) \<le> 3" and c: "3 < length [1, 2, 3, 4 :: rat]"
    by simp_all
  have d: "avg_loss [1, 2, 3, 4] 2 ! 3 = Fin 0" by code_simp
  have e: "calc_rsi [1, 2, 3, 4] 2 = Inr [NaN, NaN, Fin 0, Fin 0]" by code_simp
  from a b c d e rsi_is_zero_when_avg_loss_is_zero[OF a b c d]
  show ?thesis by (intro conjI)
qed

subsection \<open>The smoothed averages\<close>

lemma smooth_from_nth:
  "j < length xs \<Longrightarrow>
     smooth_from a w xs ! j
       = (1 - a) * (if j = 0 then w else smooth_from a w xs ! (j - 1)) + a * xs ! j"
proof (induction xs arbitrary: w j)
  case Nil
  then show ?case by simp
next
  case (Cons x xs)
  show ?case
  proof (cases j)
    case 0
    then show ?thesis by simp
  next
    case (Suc k)
    with Cons.prems have k: "k < length xs" by simp
    show ?thesis
      using Cons.IH[OF k, of "(1 - a) * w + a * x"] Suc by (cases k) simp_all
  qed
qed

lemma smooth_nth_Suc:
  assumes "Suc j < length xs"
  shows "smooth a xs ! Suc j = (1 - a) * smooth a xs ! j + a * xs ! Suc j"
proof -
  from assms obtain g gs where xs: "xs = g # gs" by (cases xs) auto
  with assms have j: "j < length gs" by simp
  show ?thesis
    unfolding xs using smooth_from_nth[OF j, of a g] by (cases j) simp_all
qed

lemma smooth_nth_0: "xs \<noteq> [] \<Longrightarrow> smooth a xs ! 0 = xs ! 0"
  by (cases xs) simp_all

text \<open>
  C8: for every series and period \<open>P\<close>, \<open>avg_gain\<close> and \<open>avg_loss\<close> are NaN at index
  0 (no difference there) and then the pure recursive smoothing of the day-over-day gains
  (losses) with \<open>alpha = 1 / P\<close>: the first value is the first gain itself (no simple
  average seeds it), each later value is \<open>(1 - alpha) * previous + alpha * gain\<close>, and
  of these values the first \<open>P - 1\<close> are reported as NaN.
\<close>

theorem ewm_is_recursive_smoothing:
  "avg_gain series P =
     (if series = [] then []
      else NaN # usable_from P 0 (smooth (1 / of_nat P) (day_gains series))) \<and>
   avg_loss series P =
     (if series = [] then []
      else NaN # usable_from P 0 (smooth (1 / of_nat P) (day_losses series))) \<and>
   (xs \<noteq> [] \<longrightarrow> smooth a xs ! 0 = xs ! 0) \<and>
   (\<forall>j. Suc j < length xs \<longrightarrow>
        smooth a xs ! Suc j = (1 - a) * smooth a xs ! j + a * xs ! Suc j) \<and>
   (\<forall>j < length xs. usable_from P 0 xs ! j = (if j + 1 < P then NaN else Fin (xs ! j)))"
proof -
  have g: "avg_gain series P =
     (if series = [] then []
      else NaN # usable_from P 0 (smooth (1 / of_nat P) (day_gains series)))"
  proof (cases series)
    case Nil
    then show ?thesis by (simp add: avg_gain_def gain_def)
  next
    case (Cons x xs)
    then show ?thesis by (simp only: avg_gain_eq) simp
  qed
  have l: "avg_loss series P =
     (if series = [] then []
      else NaN # usable_from P 0 (smooth (1 / of_nat P) (day_losses series)))"
  proof (cases series)
    case Nil
    then show ?thesis by (simp add: avg_loss_def loss_def)
  next
    case (Cons x xs)
    then show ?thesis by (simp only: avg_loss_eq) simp
  qed
  have u: "\<forall>j < length xs. usable_from P 0 xs ! j = (if j + 1 < P then NaN else Fin (xs ! j))"
  proof (intro allI impI)
    fix j assume j: "j < length xs"
    show "usable_from P 0 xs ! j = (if j + 1 < P then NaN else Fin (xs ! j))"
      using usable_from_nth[OF j, of P 0] by auto
  qed
  show ?thesis
    using g l u smooth_nth_0[of xs a] smooth_nth_Suc[of _ xs a] by blast
qed

theorem ewm_is_recursive_smoothing_witness:
  "avg_gain [1, 3, 2, 5, 4, 4] 3 = [NaN, NaN, NaN, Fin (17 / 9), Fin (34 / 27), Fin (68 / 81)] \<and>
   avg_gain [1, 3, 2, 5, 4, 4] 3 =
     NaN # usable_from 3 0 (smooth (1 / of_nat 3) (day_gains [1, 3, 2, 5, 4, 4])) \<and>
   day_gains [1, 3, 2, 5, 4, 4] = [2, 0, 3, 0, 0] \<and>
   smooth (1 / 3) [2, 0, 3, 0, 0] = [2, 4 / 3, 17 / 9, 34 / 27, 68 / 81] \<and>
   smooth (1 / 3) [2, 0, 3, 0, 0 :: rat] ! 0 = [2, 0, 3, 0, 0] ! 0 \<and>
   smooth (1 / 3) [2, 0, 3, 0, 0 :: rat] ! Suc 1
     = (1 - 1 / 3) * smooth (1 / 3) [2, 0, 3, 0, 0] ! 1 + 1 / 3 * [2, 0, 3, 0, 0] ! Suc 1 \<and>
   usable_from 3 0 [2, 4 / 3, 17 / 9] ! 1 = NaN \<and>
   usable_from 3 0 [2, 4 / 3, 17 / 9] ! 2 = Fin (17 / 9)"
proof -
  have a: "avg_gain [1, 3, 2, 5, 4, 4] 3 = [NaN, NaN, NaN, Fin (17 / 9), Fin (34 / 27), Fin (68 / 81)]"
    by code_simp
  have b: "day_gains [1, 3, 2, 5, 4, 4] = [2, 0, 3, 0, 0]" by code_simp
  have c: "smooth (1 / 3) [2, 0, 3, 0, 0] = [2, 4 / 3, 17 / 9, 34 / 27, 68 / 81]" by code_simp
  note t1 = ewm_is_recursive_smoothing[of "[1, 3, 2, 5, 4, 4]" 3 "[2, 0, 3, 0, 0]" "1 / 3"]
  note t2 = ewm_is_recursive_smoothing[of "[1, 3, 2, 5, 4, 4]" 3 "[2, 4 / 3, 17 / 9]" "1 / 3"]
  have d: "avg_gain [1, 3, 2, 5, 4, 4] 3 =
     NaN # usable_from 3 0 (smooth (1 / of_nat 3) (day_gains [1, 3, 2, 5, 4, 4]))"
    using t1 by simp
  have e: "smooth (1 / 3) [2, 0, 3, 0, 0 :: rat] ! 0 = [2, 0, 3, 0, 0] ! 0"
    using t1 by simp
  have f: "smooth (1 / 3) [2, 0, 3, 0, 0 :: rat] ! Suc 1
     = (1 - 1 / 3) * smooth (1 / 3) [2, 0, 3, 0, 0] ! 1 + 1 / 3 * [2, 0, 3, 0, 0] ! Suc 1"
  proof -
    from t1 have "\<forall>j. Suc j < length [2, 0, 3, 0, 0 :: rat] \<longrightarrow>
        smooth (1 / 3) [2, 0, 3, 0, 0 :: rat] ! Suc j
          = (1 - 1 / 3) * smooth (1 / 3) [2, 0, 3, 0, 0] ! j + 1 / 3 * [2, 0, 3, 0, 0] ! Suc j"
      by blast
    then have "Suc 1 < length [2, 0, 3, 0, 0 :: rat] \<longrightarrow>
        smooth (1 / 3) [2, 0, 3, 0, 0 :: rat] ! Suc 1
          = (1 - 1 / 3) * smooth (1 / 3) [2, 0, 3, 0, 0] ! 1 + 1 / 3 * [2, 0, 3, 0, 0] ! Suc 1"
      by (rule spec)
    then show ?thesis by simp
  qed
  have u: "\<forall>j < length [2, 4 / 3, 17 / 9 :: rat].
             usable_from 3 0 [2, 4 / 3, 17 / 9] ! j
               = (if j + 1 < 3 then NaN else Fin ([2, 4 / 3, 17 / 9] ! j))"
    using t2 by blast
  have g: "usable_from 3 0 [2, 4 / 3, 17 / 9] ! 1 = NaN"
    using u by simp
  have h: "usable_from 3 0 [2, 4 / 3, 17 / 9] ! 2 = Fin (17 / 9)"
    using u by simp
  from a d b c e f g h show ?thesis by (intro conjI)
qed

subsection \<open>The outcome of run\<close>

lemma fetch_spy_news_failed: "news_failed nf \<Longrightarrow> fetch_spy_news nf = ''''"
  by (cases nf rule: fetch_spy_news.cases) simp_all

lemma result_run:
  "result (run w) =
     (case run_payload w of Inl e \<Rightarrow> Inl e
      | Inr p \<Rightarrow> (case storage w of StorageOk \<Rightarrow> Inr () | _ \<Rightarrow> Inl OSError))"
  by (simp add: run_def split: sum.splits storage.splits)

lemma events_run:
  "events (run w) =
     (case run_payload w of Inl e \<Rightarrow> [EvDownload]
      | Inr p \<Rightarrow> (case storage w of
           StorageOk \<Rightarrow> [EvDownload, EvNews, EvClock, EvOpen, EvWrite, EvPrint]
         | OpenFails \<Rightarrow> [EvDownload, EvNews, EvClock, EvOpen]
         | WriteFails k \<Rightarrow> [EvDownload, EvNews, EvClock, EvOpen, EvWrite]))"
  by (simp add: run_def split: sum.splits storage.splits)

lemma run_payload_news:
  "run_payload w =
     map_sum id (\<lambda>p. p\<lparr>p_metrics := (p_metrics p)\<lparr>m_news := fetch_spy_news (news_feed w)\<rparr>\<rparr>)
       (run_payload (w\<lparr>news_feed := other\<rparr>))"
proof (cases "feed w")
  case (Inl e)
  then show ?thesis by (simp add: run_payload_def)
next
  case (Inr df)
  show ?thesis
  proof (cases "df = [] \<or> length df < 210")
    case True
    with Inr show ?thesis by (simp add: run_payload_def)
  next
    case False
    then show ?thesis
      using Inr by (cases "run_indicators df") (simp_all add: run_payload_def make_payload_def)
  qed
qed

lemma near_mean_payload:
  assumes "feed w = Inr (replicate 209 100 @ [100004 / 1000])"
  shows "run_payload w =
     Inr (make_payload
            \<lparr> last_close = Fin 100, last_rsi2 = Fin 0, last_sma200 = Fin 100,
              rsi2_below_30 = 1, three_lower = 0, above_sma200 = 0 \<rparr>
            (fetch_spy_news (news_feed w)) (clock w))"
proof -
  have c: "\<not> (replicate 209 100 @ [100004 / 1000 :: rat] = []
              \<or> length (replicate 209 100 @ [100004 / 1000 :: rat]) < 210)"
    by simp
  show ?thesis
    unfolding run_payload_def assms
    by (simp only: and_then.simps c if_False near_mean_indicators)
qed

subsection \<open>A failed news request\<close>

text \<open>
  C7: when the news request fails (it raises, or delivers no item), the payload of the
  run is the payload of the same run with any other news outcome, except that its news
  field is the empty string: ticker, the three signals and the three metrics are the
  same. The run ends the same way (the failure never aborts it) and performs the same
  external actions.
\<close>

theorem news_failure_only_empties_news:
  assumes "news_failed (news_feed w)"
  shows "run_payload w =
           map_sum id (\<lambda>p. p\<lparr>p_metrics := (p_metrics p)\<lparr>m_news := ''''\<rparr>\<rparr>)
             (run_payload (w\<lparr>news_feed := other\<rparr>)) \<and>
         result (run w) = result (run (w\<lparr>news_feed := other\<rparr>)) \<and>
         events (run w) = events (run (w\<lparr>news_feed := other\<rparr>))"
proof -
  have n: "fetch_spy_news (news_feed w) = ''''"
    using assms by (rule fetch_spy_news_failed)
  have p: "run_payload w =
           map_sum id (\<lambda>p. p\<lparr>p_metrics := (p_metrics p)\<lparr>m_news := ''''\<rparr>\<rparr>)
             (run_payload (w\<lparr>news_feed := other\<rparr>))"
    using run_payload_news[of w other] by (simp only: n)
  have r: "result (run w) = result (run (w\<lparr>news_feed := other\<rparr>))"
    unfolding result_run p by (cases "run_payload (w\<lparr>news_feed := other\<rparr>)") simp_all
  have e: "events (run w) = events (run (w\<lparr>news_feed := other\<rparr>))"
    unfolding events_run p by (cases "run_payload (w\<lparr>news_feed := other\<rparr>)") simp_all
  from p r e show ?thesis by (intro conjI)
qed

text \<open>The run whose news request raises, compared with the run that gets a headline.\<close>

theorem news_failure_only_empties_news_witness:
  "news_failed (news_feed no_news_world) \<and>
   run_payload no_news_world =
     Inr (make_payload
            \<lparr> last_close = Fin 100, last_rsi2 = Fin 0, last_sma200 = Fin 100,
              rsi2_below_30 = 1, three_lower = 0, above_sma200 = 0 \<rparr>
            '''' ''2024-01-02T21:30:00Z'') \<and>
   run_payload no_news_world =
     map_sum id (\<lambda>p. p\<lparr>p_metrics := (p_metrics p)\<lparr>m_news := ''''\<rparr>\<rparr>)
       (run_payload
          (no_news_world\<lparr>news_feed := NewsList [NewsItem (Some (Content (Some ''Stocks rise'')))]\<rparr>)) \<and>
   result (run no_news_world) =
     result (run (no_news_world\<lparr>news_feed := NewsList [NewsItem (Some (Content (Some ''Stocks rise'')))]\<rparr>)) \<and>
   events (run no_news_world) =
     events (run (no_news_world\<lparr>news_feed := NewsList [NewsItem (Some (Content (Some ''Stocks rise'')))]\<rparr>)) \<and>
   result (run no_news_world) = Inr ()"
proof -
  have h: "news_failed (news_feed no_news_world)" by (simp add: no_news_world_def)
  have f: "feed no_news_world = Inr (replicate 209 100 @ [100004 / 1000])"
    by (simp add: no_news_world_def)
  have p: "run_payload no_news_world =
     Inr (make_payload
            \<lparr> last_close = Fin 100, last_rsi2 = Fin 0, last_sma200 = Fin 100,
              rsi2_below_30 = 1, three_lower = 0, above_sma200 = 0 \<rparr>
            '''' ''2024-01-02T21:30:00Z'')"
    using near_mean_payload[OF f] by (simp add: no_news_world_def)
  have r: "result (run no_news_world) = Inr ()"
    unfolding result_run p by (simp add: no_news_world_def)
  note t = news_failure_only_empties_news
    [OF h, of "NewsList [NewsItem (Some (Content (Some ''Stocks rise'')))]"]
  from h p t r show ?thesis by (intro conjI) blast+
qed

subsection \<open>What a failed run leaves in the file\<close>

text \<open>
  C6, as the code has it: a run that fails before the file is opened (acquisition error,
  insufficient data), or whose \<open>open\<close> fails, leaves the previous snapshot file
  untouched. Once \<open>open(out, "w")\<close> has succeeded the previous content is gone: a
  write that fails after \<open>k\<close> tokens leaves the first \<open>k\<close> tokens of the new document
  in the file, and a successful run leaves the whole new document.
\<close>

theorem failed_run_file_state:
  "(run_payload w = Inl e \<longrightarrow>
      result (run w) = Inl e \<and> file_after (run w) = snapshot_file w) \<and>
   (run_payload w = Inr p \<and> storage w = OpenFails \<longrightarrow>
      result (run w) = Inl OSError \<and> file_after (run w) = snapshot_file w) \<and>
   (run_payload w = Inr p \<and> storage w = WriteFails k \<longrightarrow>
      result (run w) = Inl OSError \<and> file_after (run w) = Some (take k (json_tokens p))) \<and>
   (run_payload w = Inr p \<and> storage w = StorageOk \<longrightarrow>
      result (run w) = Inr () \<and> file_after (run w) = Some (json_tokens p))"
  by (simp add: run_def)


text \<open>The run with the failing storage, as an instance of the statement above.\<close>

theorem failed_run_file_state_witness:
  "run_payload failing_write_world =
     Inr (make_payload
            \<lparr> last_close = Fin 100, last_rsi2 = Fin 0, last_sma200 = Fin 100,
              rsi2_below_30 = 1, three_lower = 0, above_sma200 = 0 \<rparr>
            ''Stocks rise'' ''2024-01-02T21:30:00Z'') \<and>
   storage failing_write_world = WriteFails 5 \<and>
   result (run failing_write_world) = Inl OSError \<and>
   file_after (run failing_write_world) =
     Some (take 5 (json_tokens
            (make_payload
               \<lparr> last_close = Fin 100, last_rsi2 = Fin 0, last_sma200 = Fin 100,
                 rsi2_below_30 = 1, three_lower = 0, above_sma200 = 0 \<rparr>
               ''Stocks rise'' ''2024-01-02T21:30:00Z'')))"
proof -
  have f: "feed failing_write_world = Inr (replicate 209 100 @ [100004 / 1000])"
    by (simp add: failing_write_world_def)
  have p: "run_payload failing_write_world =
     Inr (make_payload
            \<lparr> last_close = Fin 100, last_rsi2 = Fin 0, last_sma200 = Fin 100,
              rsi2_below_30 = 1, three_lower = 0, above_sma200 = 0 \<rparr>
            ''Stocks rise'' ''2024-01-02T21:30:00Z'')"
    using near_mean_payload[OF f] by (simp add: failing_write_world_def)
  have s: "storage failing_write_world = WriteFails 5"
    by (simp add: failing_write_world_def)
  from p s failed_run_file_state[of failing_write_world _ _ 5]
  show ?thesis by blast
qed

text \<open>
  C6 as stated fails: the write fails after five tokens, the run ends with the error,
  and the file no longer holds the previous snapshot but the first five tokens of the
  new one.
\<close>

theorem write_failure_counterexample:
  "result (run failing_write_world) = Inl OSError \<and>
   snapshot_file failing_write_world = Some [JOpen, JKey ''ticker'', JStr ''SPY'', JClose] \<and>
   file_after (run failing_write_world) =
     Some [JOpen, JKey ''ticker'', JStr ''SPY'', JKey ''rsi_2_below_30'', JInt 1]"
proof -
  have f: "feed failing_write_world = Inr (replicate 209 100 @ [100004 / 1000])"
    by (simp add: failing_write_world_def)
  have p: "run_payload failing_write_world =
     Inr (make_payload
            \<lparr> last_close = Fin 100, last_rsi2 = Fin 0, last_sma200 = Fin 100,
              rsi2_below_30 = 1, three_lower = 0, above_sma200 = 0 \<rparr>
            ''Stocks rise'' ''2024-01-02T21:30:00Z'')"
    using near_mean_payload[OF f] by (simp add: failing_write_world_def)
  show ?thesis
    by (simp add: run_def p) (simp add: failing_write_world_def json_tokens_def make_payload_def)
qed

end
